theory Spec2Isabelle
  imports Complex_Main "HOL-Library.AList"
begin

section \<open>Cell values and Python strings\<close>

text \<open>
  A cell of a pandas frame read with \<^verbatim>\<open>header=None\<close> is seen by the program only
  through \<^verbatim>\<open>pd.notna\<close>, \<^verbatim>\<open>isinstance(_, str)\<close>, \<^verbatim>\<open>str(_)\<close> and \<^verbatim>\<open>float(_)\<close>.
  \<^item> \<open>Empty\<close> is a missing value (NaN, None): \<^verbatim>\<open>pd.notna\<close> is false on it;
  \<^item> \<open>Text s\<close> is a Python \<^verbatim>\<open>str\<close>;
  \<^item> \<open>Number s v\<close> is a numeric object (int, float, bool) whose \<^verbatim>\<open>str()\<close> is \<open>s\<close> and
    whose \<^verbatim>\<open>float()\<close> is \<open>v\<close>;
  \<^item> \<open>Raw s\<close> is any other object (a datetime, say) whose \<^verbatim>\<open>str()\<close> is \<open>s\<close> and on which
    \<^verbatim>\<open>float()\<close> raises TypeError.

  The text and the value of a \<open>Number\<close> are those that the rows of \<^verbatim>\<open>df.iterrows()\<close>
  show for it (a row of numbers only is a row of floats there).

  The type \<open>'f\<close> stands for Python floats. Only its zero and its addition are used, and no
  law of arithmetic is assumed of them, so every result below holds for IEEE doubles with
  their rounding as well as for exact numbers.
\<close>

datatype 'f cell = Empty | Text string | Number string 'f | Raw string

fun notna :: "'f cell \<Rightarrow> bool" where
  "notna Empty = False"
| "notna _ = True"

fun isinstance_str :: "'f cell \<Rightarrow> bool" where
  "isinstance_str (Text _) = True"
| "isinstance_str _ = False"

text \<open>\<^verbatim>\<open>str(cell)\<close> for a cell that is not missing; a missing float prints as \<^verbatim>\<open>nan\<close>.\<close>

fun py_str :: "'f cell \<Rightarrow> string" where
  "py_str Empty = ''nan''"
| "py_str (Text s) = s"
| "py_str (Number s _) = s"
| "py_str (Raw s) = s"

text \<open>
  Strings are character lists; a character is a code point below 256. \<^verbatim>\<open>str.strip()\<close>
  removes leading and trailing whitespace, the characters on which \<^verbatim>\<open>str.isspace\<close> holds:
  below 256 these are the codes 9 to 13, 28 to 31 and 32, the next-line control 133
  (U+0085) and the no-break space 160 (U+00A0).
\<close>

definition isspace :: "char \<Rightarrow> bool" where
  "isspace c =
     (let n = (of_char c :: nat)
      in (9 \<le> n \<and> n \<le> 13) \<or> (28 \<le> n \<and> n \<le> 32) \<or> n = 133 \<or> n = 160)"

definition strip :: "string \<Rightarrow> string" where
  "strip s = rev (dropWhile isspace (rev (dropWhile isspace s)))"

text \<open>\<^verbatim>\<open>s.replace(c, '')\<close> for a one-character \<open>c\<close>: every occurrence is deleted.\<close>

definition replace_char :: "char \<Rightarrow> string \<Rightarrow> string" where
  "replace_char c s = filter (\<lambda>x. x \<noteq> c) s"

section \<open>Data frames\<close>

text \<open>
  A frame is the sequence of its rows, each with its index label, as \<^verbatim>\<open>df.iterrows()\<close>
  yields them. Column labels are never read by the program and are left out. A frame of
  pandas is rectangular; \<open>rect\<close> says so of the model.
\<close>

type_synonym 'f dataframe = "(nat \<times> 'f cell list) list"

definition iterrows :: "'f dataframe \<Rightarrow> (nat \<times> 'f cell list) list" where
  "iterrows df = df"

definition ncols :: "'f dataframe \<Rightarrow> nat" where
  "ncols df = (case df of [] \<Rightarrow> 0 | (idx, row) # _ \<Rightarrow> length row)"

definition rect :: "'f dataframe \<Rightarrow> bool" where
  "rect df = list_all (\<lambda>(idx, row). length row = ncols df) df"

text \<open>\<^verbatim>\<open>df.empty\<close>: one of the two axes has length 0.\<close>

definition df_empty :: "'f dataframe \<Rightarrow> bool" where
  "df_empty df = (df = [] \<or> ncols df = 0)"

text \<open>\<^verbatim>\<open>df.iloc[a:b]\<close> and \<^verbatim>\<open>df.iloc[a:]\<close> for non-negative positions.\<close>

definition iloc :: "nat \<Rightarrow> nat \<Rightarrow> 'f dataframe \<Rightarrow> 'f dataframe" where
  "iloc a b df = take (b - a) (drop a df)"

definition iloc_from :: "nat \<Rightarrow> 'f dataframe \<Rightarrow> 'f dataframe" where
  "iloc_from a df = drop a df"

text \<open>\<^verbatim>\<open>df.dropna(how='all')\<close>: the rows whose cells are all missing go, labels stay.\<close>

definition all_na :: "'f cell list \<Rightarrow> bool" where
  "all_na cells = list_all (\<lambda>c. \<not> notna c) cells"

definition dropna :: "'f dataframe \<Rightarrow> 'f dataframe" where
  "dropna df = filter (\<lambda>(idx, row). \<not> all_na row) df"

text \<open>\<^verbatim>\<open>df.dropna(axis=1, how='all')\<close>: the columns whose cells are all missing go.\<close>

definition column :: "nat \<Rightarrow> 'f dataframe \<Rightarrow> 'f cell list" where
  "column j df = map (\<lambda>(idx, row). row ! j) df"

definition dropna_axis1 :: "'f dataframe \<Rightarrow> 'f dataframe" where
  "dropna_axis1 df =
     (let keep = filter (\<lambda>j. \<not> all_na (column j df)) [0..<ncols df]
      in map (\<lambda>(idx, row). (idx, map (\<lambda>j. row ! j) keep)) df)"

text \<open>\<^verbatim>\<open>df.reset_index(drop=True)\<close>: the labels become 0, 1, 2, ...\<close>

definition reset_index :: "'f dataframe \<Rightarrow> 'f dataframe" where
  "reset_index df = zip [0..<length df] (map snd df)"

subsection \<open>\<^verbatim>\<open>ExcelProcessor.clean_table\<close>\<close>

definition clean_table :: "'f dataframe \<Rightarrow> 'f dataframe" where
  "clean_table df = reset_index (dropna_axis1 (dropna df))"

section \<open>The table store\<close>

text \<open>
  A Python \<^verbatim>\<open>dict\<close> is an association list in insertion order; \<^verbatim>\<open>d[k] = v\<close> is
  \<^const>\<open>AList.update\<close> (an existing key keeps its place and takes the new value),
  \<^verbatim>\<open>k in d\<close> and \<^verbatim>\<open>d[k]\<close> are \<^const>\<open>map_of\<close>.
\<close>

type_synonym 'f tables = "(string \<times> 'f dataframe) list"

text \<open>\<^verbatim>\<open>d.update(other)\<close>\<close>

definition dict_update :: "'f tables \<Rightarrow> 'f tables \<Rightarrow> 'f tables" where
  "dict_update d other = foldl (\<lambda>acc (k, v). AList.update k v acc) d other"

subsection \<open>\<^verbatim>\<open>ExcelProcessor.identify_tables_in_sheet\<close>\<close>

text \<open>\<^verbatim>\<open>row.iloc[0] if len(row) > 0 else None\<close>; \<^verbatim>\<open>None\<close> is a missing value.\<close>

definition first_cell :: "'f cell list \<Rightarrow> 'f cell" where
  "first_cell row = (if length row > 0 then row ! 0 else Empty)"

text \<open>\<^verbatim>\<open>pd.notna(first_cell) and isinstance(first_cell, str) and first_cell.strip()\<close>\<close>

definition is_header :: "'f cell \<Rightarrow> bool" where
  "is_header c = (notna c \<and> isinstance_str c \<and> strip (py_str c) \<noteq> [])"

text \<open>
  The guarded save \<^verbatim>\<open>if current_table_name and current_table_start is not None\<close>:
  a name that is \<^verbatim>\<open>None\<close> or empty is falsy.
\<close>

definition save_table ::
  "string option \<Rightarrow> nat option \<Rightarrow> (nat \<Rightarrow> 'f dataframe) \<Rightarrow> 'f tables \<Rightarrow> 'f tables" where
  "save_table current_table_name current_table_start table_df tables =
     (case (current_table_name, current_table_start) of
        (Some name, Some start) \<Rightarrow>
          if name \<noteq> [] then AList.update name (clean_table (table_df start)) tables else tables
      | _ \<Rightarrow> tables)"

text \<open>One iteration of the loop over \<^verbatim>\<open>df.iterrows()\<close>.\<close>

definition seg_step ::
  "'f dataframe \<Rightarrow> 'f tables \<times> string option \<times> nat option \<Rightarrow> nat \<times> 'f cell list
     \<Rightarrow> 'f tables \<times> string option \<times> nat option" where
  "seg_step df st ir =
     (case st of (tables, current_table_name, current_table_start) \<Rightarrow>
      case ir of (idx, row) \<Rightarrow>
        if is_header (first_cell row)
        then (save_table current_table_name current_table_start (\<lambda>start. iloc start idx df) tables,
              Some (strip (py_str (first_cell row))), Some idx)
        else st)"

definition fallback_name :: "string \<Rightarrow> string" where
  "fallback_name sheet_name = (if sheet_name \<noteq> [] then ''Sheet_'' @ sheet_name else ''Default_Table'')"

definition identify_tables_in_sheet :: "'f dataframe \<Rightarrow> string \<Rightarrow> 'f tables" where
  "identify_tables_in_sheet df sheet_name =
     (case foldl (seg_step df) ([], None, None) (iterrows df) of
        (tables, current_table_name, current_table_start) \<Rightarrow>
          let tables = save_table current_table_name current_table_start (\<lambda>start. iloc_from start df) tables
          in if tables = [] then AList.update (fallback_name sheet_name) (clean_table df) tables
             else tables)"

subsection \<open>\<^verbatim>\<open>ExcelProcessor.process_tables\<close>\<close>

text \<open>\<open>excel_data\<close> is the dictionary from sheet name to frame, in sheet order.\<close>

definition process_tables :: "(string \<times> 'f dataframe) list \<Rightarrow> 'f tables" where
  "process_tables excel_data =
     foldl (\<lambda>tables (sheet_name, df). dict_update tables (identify_tables_in_sheet df sheet_name))
       [] excel_data"

section \<open>Queries\<close>

text \<open>\<^verbatim>\<open>HTTPException(status_code=..., detail=...)\<close>\<close>

datatype http_exception = HTTPException (status_code: nat) (detail: string)

definition quoted :: "string \<Rightarrow> string" where
  "quoted s = [CHR 0x27] @ s @ [CHR 0x27]"

definition table_not_found :: "string \<Rightarrow> http_exception" where
  "table_not_found table_name = HTTPException 404 (''Table '' @ quoted table_name @ '' not found'')"

definition row_not_found :: "string \<Rightarrow> string \<Rightarrow> http_exception" where
  "row_not_found row_name table_name =
     HTTPException 404 (''Row '' @ quoted row_name @ '' not found in table '' @ quoted table_name)"

subsection \<open>\<^verbatim>\<open>ExcelProcessor.get_table_names\<close>\<close>

definition get_table_names :: "'f tables \<Rightarrow> string list" where
  "get_table_names tables = map fst tables"

subsection \<open>\<^verbatim>\<open>ExcelProcessor.get_table_row_names\<close>\<close>

definition get_table_row_names :: "'f tables \<Rightarrow> string \<Rightarrow> http_exception + string list" where
  "get_table_row_names tables table_name =
     (case map_of tables table_name of
        None \<Rightarrow> Inl (table_not_found table_name)
      | Some df \<Rightarrow>
          if df_empty df then Inr []
          else Inr (foldl (\<lambda>row_names (idx, row).
                      if notna (first_cell row) then row_names @ [py_str (first_cell row)]
                      else row_names) [] (iterrows df)))"

subsection \<open>\<^verbatim>\<open>ExcelProcessor.calculate_row_sum\<close>\<close>

text \<open>The search loop, left at the first match by \<^verbatim>\<open>break\<close>.\<close>

fun find_target_row :: "string \<Rightarrow> (nat \<times> 'f cell list) list \<Rightarrow> 'f cell list option" where
  "find_target_row row_name [] = None"
| "find_target_row row_name ((idx, row) # rest) =
     (if notna (first_cell row) \<and> py_str (first_cell row) = row_name then Some row
      else find_target_row row_name rest)"

text \<open>
  \<^verbatim>\<open>float(value)\<close> on a cell that is not a string: \<open>None\<close> is the TypeError. (A missing
  value never reaches it: \<^verbatim>\<open>pd.notna\<close> guards the call.)
\<close>

fun py_float :: "'f cell \<Rightarrow> 'f option" where
  "py_float (Number _ v) = Some v"
| "py_float _ = None"

text \<open>
  The body of the summing loop. \<^verbatim>\<open>float\<close> on a string is Python's own parser and is a
  parameter, \<open>float_str\<close>: \<open>None\<close> is the ValueError, which the loop catches to go on
  with the next cell.
\<close>

definition add_value :: "(string \<Rightarrow> 'f option) \<Rightarrow> 'f::{zero,plus} \<Rightarrow> 'f cell \<Rightarrow> 'f" where
  "add_value float_str numerical_sum val =
     (if notna val then
        (if isinstance_str val then
           (let clean_value =
                  strip (replace_char (CHR '','') (replace_char (CHR ''$'')
                    (replace_char (CHR ''%'') (py_str val))))
            in if clean_value \<noteq> [] then
                 (case float_str clean_value of
                    Some x \<Rightarrow> numerical_sum + x
                  | None \<Rightarrow> numerical_sum)
               else numerical_sum)
         else (case py_float val of
                 Some x \<Rightarrow> numerical_sum + x
               | None \<Rightarrow> numerical_sum))
      else numerical_sum)"

definition calculate_row_sum ::
  "(string \<Rightarrow> 'f option) \<Rightarrow> 'f tables \<Rightarrow> string \<Rightarrow> string \<Rightarrow> http_exception + 'f::{zero,plus}" where
  "calculate_row_sum float_str tables table_name row_name =
     (case map_of tables table_name of
        None \<Rightarrow> Inl (table_not_found table_name)
      | Some df \<Rightarrow>
          (case find_target_row row_name (iterrows df) of
             None \<Rightarrow> Inl (row_not_found row_name table_name)
           | Some target_row \<Rightarrow> Inr (foldl (add_value float_str) 0 (drop 1 target_row))))"

subsection \<open>A parser for decimal literals\<close>

text \<open>
  The examples need one concrete \<open>float_str\<close>. \<open>float_decimal\<close> reads an optional sign,
  digits, and an optional point with digits, as \<^verbatim>\<open>float\<close> does on such literals, and
  fails on everything else. The general results hold for every parser.
\<close>

definition digit_of :: "char \<Rightarrow> nat option" where
  "digit_of c = (let n = (of_char c :: nat) in if 48 \<le> n \<and> n \<le> 57 then Some (n - 48) else None)"

fun digits_value :: "string \<Rightarrow> nat \<Rightarrow> nat option" where
  "digits_value [] acc = Some acc"
| "digits_value (c # cs) acc =
     (case digit_of c of None \<Rightarrow> None | Some d \<Rightarrow> digits_value cs (10 * acc + d))"

definition float_decimal :: "string \<Rightarrow> rat option" where
  "float_decimal s =
     (let negative = (take 1 s = ''-'');
          body = (if take 1 s = ''-'' \<or> take 1 s = ''+'' then drop 1 s else s);
          whole = takeWhile (\<lambda>c. c \<noteq> CHR ''.'') body;
          frac = drop 1 (dropWhile (\<lambda>c. c \<noteq> CHR ''.'') body)
      in if whole @ frac = [] then None
         else (case (digits_value whole 0, digits_value frac 0) of
                 (Some a, Some b) \<Rightarrow>
                   Some ((if negative then - 1 else 1) * (of_nat a + of_nat b / 10 ^ length frac))
               | _ \<Rightarrow> None))"

section \<open>The specification's notions\<close>

text \<open>
  The definitions of this section follow the words of the specification, not the program;
  the theorems below compare the two.
\<close>

subsection \<open>Cleaning\<close>

text \<open>
  The positions of the rows with at least one cell that is not missing, and the positions
  of the columns with at least one such cell in one of those rows.
\<close>

definition surviving_rows :: "'f dataframe \<Rightarrow> nat list" where
  "surviving_rows df = filter (\<lambda>i. \<not> all_na (snd (df ! i))) [0..<length df]"

definition surviving_columns :: "'f dataframe \<Rightarrow> nat list" where
  "surviving_columns df =
     filter (\<lambda>j. \<exists>i\<in>set (surviving_rows df). notna (snd (df ! i) ! j)) [0..<ncols df]"

text \<open>The column mask that \<^const>\<open>dropna_axis1\<close> computes.\<close>

definition kept_columns :: "'f dataframe \<Rightarrow> nat list" where
  "kept_columns df = filter (\<lambda>j. \<not> all_na (column j df)) [0..<ncols df]"

subsection \<open>Segmentation\<close>

text \<open>
  A frame as \<^verbatim>\<open>pd.read_excel(..., header=None)\<close> returns it is labelled 0, 1, 2, ...:
  the label of a row is its position.
\<close>

definition range_index :: "'f dataframe \<Rightarrow> bool" where
  "range_index df = (map fst df = [0..<length df])"

text \<open>
  A row is a table-start marker iff its first cell is non-empty, is text, and is non-empty
  after trimming whitespace.
\<close>

definition table_start_marker :: "'f cell list \<Rightarrow> bool" where
  "table_start_marker row = (case row of Text s # _ \<Rightarrow> strip s \<noteq> [] | _ \<Rightarrow> False)"

definition markers :: "'f dataframe \<Rightarrow> nat list" where
  "markers df = filter (\<lambda>i. table_start_marker (snd (df ! i))) [0..<length df]"

text \<open>The trimmed text of the marker cell of row \<open>i\<close>.\<close>

definition marker_name :: "'f dataframe \<Rightarrow> nat \<Rightarrow> string" where
  "marker_name df i = (case snd (df ! i) of Text s # _ \<Rightarrow> strip s | _ \<Rightarrow> [])"

text \<open>The sub-grid of the rows \<open>[j, i)\<close>.\<close>

definition rows_between :: "'f dataframe \<Rightarrow> nat \<Rightarrow> nat \<Rightarrow> 'f dataframe" where
  "rows_between df j i = map (\<lambda>k. df ! k) [j..<i]"

text \<open>
  Each marker opens a table that the next marker closes; the last one is closed by the end
  of the sheet, row \<open>n\<close>.
\<close>

definition segments :: "nat list \<Rightarrow> nat \<Rightarrow> (nat \<times> nat) list" where
  "segments ms n = zip ms (tl ms @ [n])"

definition segmentation :: "'f dataframe \<Rightarrow> (string \<times> 'f dataframe) list" where
  "segmentation df =
     map (\<lambda>(j, i). (marker_name df j, rows_between df j i)) (segments (markers df) (length df))"

text \<open>Storing a sequence of named sub-grids, each cleaned, one after the other.\<close>

definition store_cleaned :: "'f tables \<Rightarrow> (string \<times> 'f dataframe) list \<Rightarrow> 'f tables" where
  "store_cleaned tables ws = foldl (\<lambda>acc (name, g). AList.update name (clean_table g) acc) tables ws"

text \<open>
  The named sub-grids of one sheet, in row order, and those of a workbook, in sheet order.
  A sheet without marker is one sub-grid under its fallback name.
\<close>

definition sheet_writes :: "'f dataframe \<Rightarrow> string \<Rightarrow> (string \<times> 'f dataframe) list" where
  "sheet_writes df sheet_name =
     (if markers df = [] then [(fallback_name sheet_name, df)] else segmentation df)"

definition all_writes :: "(string \<times> 'f dataframe) list \<Rightarrow> (string \<times> 'f dataframe) list" where
  "all_writes excel_data = concat (map (\<lambda>(sheet_name, df). sheet_writes df sheet_name) excel_data)"

text \<open>The state of the segmenting loop after the rows before position \<open>k\<close>.\<close>

definition markers_upto :: "'f dataframe \<Rightarrow> nat \<Rightarrow> nat list" where
  "markers_upto df k = filter (\<lambda>i. table_start_marker (snd (df ! i))) [0..<k]"

definition segment_of :: "'f dataframe \<Rightarrow> nat \<times> nat \<Rightarrow> string \<times> 'f dataframe" where
  "segment_of df = (\<lambda>(j, i). (marker_name df j, rows_between df j i))"

definition seg_state_upto ::
  "'f dataframe \<Rightarrow> nat \<Rightarrow> 'f tables \<times> string option \<times> nat option" where
  "seg_state_upto df k =
     (let ms = markers_upto df k
      in (store_cleaned [] (map (segment_of df) (zip ms (tl ms))),
          if ms = [] then None else Some (marker_name df (last ms)),
          if ms = [] then None else Some (last ms)))"

subsection \<open>Row labels and numeric coercion\<close>

text \<open>A row answers to \<open>row_name\<close> iff its first cell is non-empty and its text is \<open>row_name\<close>.\<close>

definition label_matches :: "string \<Rightarrow> 'f cell list \<Rightarrow> bool" where
  "label_matches row_name row = (row \<noteq> [] \<and> hd row \<noteq> Empty \<and> py_str (hd row) = row_name)"

definition row_labels :: "'f dataframe \<Rightarrow> string list" where
  "row_labels df =
     map (\<lambda>row. py_str (hd row)) (filter (\<lambda>row. row \<noteq> [] \<and> hd row \<noteq> Empty) (map snd df))"

text \<open>
  The numeric value of a cell, if it has one: a number is itself; a text loses the
  characters \<^verbatim>\<open>%\<close>, \<^verbatim>\<open>$\<close>, \<^verbatim>\<open>,\<close> and the surrounding whitespace, and what is left is parsed,
  unless nothing is left.
\<close>

definition remove_symbols :: "string \<Rightarrow> string" where
  "remove_symbols s = filter (\<lambda>x. x \<notin> set ''%$,'') s"

definition coerce :: "(string \<Rightarrow> 'f option) \<Rightarrow> 'f cell \<Rightarrow> 'f option" where
  "coerce float_str c =
     (case c of
        Empty \<Rightarrow> None
      | Text s \<Rightarrow>
          (let t = strip (remove_symbols s)
           in if t = [] then None else float_str t)
      | Number _ v \<Rightarrow> Some v
      | Raw _ \<Rightarrow> None)"

section \<open>Example data\<close>

definition example_sheet :: "rat dataframe" where
  "example_sheet =
     [(0, [Text ''Revenue'', Text ''100'', Text ''200'']),
      (1, [Text ''Costs'', Text ''-50'', Text ''-30'']),
      (2, [Empty, Empty, Empty]),
      (3, [Text '' Revenue '', Empty, Text ''1200.50%'']),
      (4, [Number ''7'' 7, Empty, Raw ''2020-01-01''])]"

definition second_sheet :: "rat dataframe" where
  "second_sheet = [(0, [Text ''Costs'', Number ''1'' 1])]"

definition plain_sheet :: "rat dataframe" where
  "plain_sheet =
     [(0, [Number ''1'' 1, Empty, Number ''2'' 2]),
      (1, [Empty, Empty, Empty]),
      (2, [Number ''3'' 3, Empty, Text ''x''])]"

definition example_table :: "rat dataframe" where
  "example_table =
     [(0, [Text ''Costs'', Text ''-50'', Text ''-30%'', Empty, Text ''n/a'']),
      (1, [Number ''2024'' 2024, Text '' 1,200.50 '', Number ''2.5'' (5 / 2), Empty, Empty]),
      (2, [Raw ''2020-01-01'', Text ''$'', Raw ''x'', Empty, Empty])]"

definition example_tables :: "rat tables" where
  "example_tables = [(''Costs'', example_table)]"

definition example_workbook :: "(string \<times> rat dataframe) list" where
  "example_workbook = [(''S'', example_sheet), (''T'', second_sheet)]"

text \<open>
  Text with whitespace outside the ASCII range: a marker between no-break spaces, a first
  cell that is a no-break space only, and a marker and a number after such whitespace.
\<close>

definition spaced_sheet :: "rat dataframe" where
  "spaced_sheet =
     [(0, [Text (CHR 0xA0 # ''Total'' @ [CHR 0xA0]), Number ''1'' 1]),
      (1, [Text [CHR 0xA0], Number ''2'' 2]),
      (2, [Text (CHR 0x85 # ''Total''), Text (CHR 0xA0 # ''1200.50'')])]"

definition blank_label_sheet :: "rat dataframe" where
  "blank_label_sheet =
     [(0, [Text [CHR 0xA0], Number ''1'' 1]),
      (1, [Text [CHR 0x85, CHR 0x20], Empty])]"

definition spaced_tables :: "rat tables" where
  "spaced_tables =
     [(''T'', [(0, [Text ''r'', Text (CHR 0xA0 # ''1200.50''), Text [CHR 0xA0], Text [CHR 0x85]])])]"

section \<open>Auxiliary facts\<close>

subsection \<open>Frames and lists\<close>

lemma notna_iff: "notna c \<longleftrightarrow> c \<noteq> Empty"
  by (cases c) simp_all

lemma all_na_iff: "all_na cells \<longleftrightarrow> (\<forall>c\<in>set cells. c = Empty)"
  by (simp add: all_na_def list_all_iff notna_iff)

lemma rect_iff: "rect df \<longleftrightarrow> (\<forall>(idx, row)\<in>set df. length row = ncols df)"
  by (simp add: rect_def list_all_iff)

lemma ncols_filter:
  assumes "rect df" and "filter P df \<noteq> []"
  shows "ncols (filter P df) = ncols df"
proof -
  obtain idx row rest where e: "filter P df = (idx, row) # rest"
    using assms(2) by (cases "filter P df") auto
  then have "(idx, row) \<in> set (filter P df)" by simp
  then have "(idx, row) \<in> set df" by simp
  with assms(1) have "length row = ncols df" by (auto simp: rect_iff)
  with e show ?thesis by (simp add: ncols_def)
qed

lemma rect_filter: "rect df \<Longrightarrow> rect (filter P df)"
proof (cases "filter P df = []")
  case True
  then show ?thesis by (simp add: rect_def)
next
  case False
  assume r: "rect df"
  from ncols_filter [OF r False] r show ?thesis by (auto simp: rect_iff)
qed

lemma map_nth_filter_upt:
  "map ((!) xs) (filter Q [0..<length xs]) = nths xs {j. Q j}"
proof (induction xs rule: rev_induct)
  case Nil
  then show ?case by simp
next
  case (snoc x xs)
  have "map ((!) (xs @ [x])) (filter Q [0..<length xs]) = map ((!) xs) (filter Q [0..<length xs])"
    by (rule map_cong) (auto simp: nth_append)
  with snoc show ?case by (simp add: nths_append)
qed

lemma nths_agree:
  assumes "\<And>i. i < length xs \<Longrightarrow> i \<in> A \<longleftrightarrow> i \<in> B"
  shows "nths xs A = nths xs B"
proof -
  have "filter (\<lambda>p. snd p \<in> A) (zip xs [0..<length xs]) = filter (\<lambda>p. snd p \<in> B) (zip xs [0..<length xs])"
    by (rule filter_cong) (auto dest!: set_zip_rightD simp: assms)
  then show ?thesis by (simp add: nths_def)
qed

subsection \<open>The cleaner on its own output\<close>

lemma dropna_axis1_alt:
  "dropna_axis1 df = map (\<lambda>(idx, row). (idx, map ((!) row) (kept_columns df))) df"
  by (simp add: dropna_axis1_def kept_columns_def)

lemma set_dropna: "set (dropna df) = {(idx, row). (idx, row) \<in> set df \<and> \<not> all_na row}"
  by (auto simp: dropna_def)

lemma rect_dropna: "rect df \<Longrightarrow> rect (dropna df)"
  unfolding dropna_def by (rule rect_filter)

lemma map_snd_reset_index: "map snd (reset_index df) = map snd df"
  by (simp add: reset_index_def)

lemma map_fst_reset_index: "map fst (reset_index df) = [0..<length df]"
  by (simp add: reset_index_def)

lemma length_dropna_axis1: "length (dropna_axis1 df) = length df"
  by (simp add: dropna_axis1_alt)

lemma map_snd_dropna_axis1:
  "map snd (dropna_axis1 df) = map (\<lambda>row. map ((!) row) (kept_columns df)) (map snd df)"
  by (simp add: dropna_axis1_alt case_prod_unfold comp_def)

lemma map_snd_clean_table:
  "map snd (clean_table df) =
   map (\<lambda>row. map ((!) row) (kept_columns (dropna df))) (map snd (dropna df))"
  by (simp add: clean_table_def map_snd_reset_index map_snd_dropna_axis1)

lemma map_fst_clean_table: "map fst (clean_table df) = [0..<length (dropna df)]"
  by (simp add: clean_table_def map_fst_reset_index length_dropna_axis1)

lemma length_clean_table: "length (clean_table df) = length (dropna df)"
  by (simp add: clean_table_def reset_index_def length_dropna_axis1)

lemma kept_columns_mem:
  assumes "rect df" "(idx, row) \<in> set df" "j < length row" "notna (row ! j)"
  shows "j \<in> set (kept_columns df)"
proof -
  from assms(1,2) have "length row = ncols df" by (auto simp: rect_iff)
  moreover have "row ! j \<in> set (column j df)"
    using assms(2) by (force simp: column_def)
  then have "\<not> all_na (column j df)"
    using assms(4) by (auto simp: all_na_iff notna_iff)
  ultimately show ?thesis using assms(3) by (simp add: kept_columns_def)
qed

lemma clean_rows_not_all_na:
  assumes "rect df" "row' \<in> set (map snd (clean_table df))"
  shows "\<not> all_na row'"
proof -
  let ?f = "dropna df"
  from assms(2) obtain row where r: "row \<in> snd ` set ?f" and e: "row' = map ((!) row) (kept_columns ?f)"
    by (auto simp: map_snd_clean_table)
  from r obtain idx where m: "(idx, row) \<in> set ?f" by auto
  then have "\<not> all_na row" by (simp add: set_dropna)
  then obtain j where j: "j < length row" "row ! j \<noteq> Empty"
    by (auto simp: all_na_iff in_set_conv_nth)
  then have "notna (row ! j)" by (simp add: notna_iff)
  with kept_columns_mem [OF rect_dropna [OF assms(1)] m j(1)]
  have "j \<in> set (kept_columns ?f)" by simp
  then have "row ! j \<in> set row'" by (simp add: e)
  with j(2) show ?thesis by (auto simp: all_na_iff)
qed

lemma ncols_clean_table:
  "clean_table df \<noteq> [] \<Longrightarrow> ncols (clean_table df) = length (kept_columns (dropna df))"
proof -
  assume "clean_table df \<noteq> []"
  then have "map snd (clean_table df) \<noteq> []" by simp
  then obtain r rs where "map snd (dropna df) = r # rs"
    unfolding map_snd_clean_table by (cases "map snd (dropna df)") auto
  with map_snd_clean_table [of df]
  have "map snd (clean_table df) = map ((!) r) (kept_columns (dropna df)) # map (\<lambda>row. map ((!) row) (kept_columns (dropna df))) rs"
    by simp
  then show ?thesis by (cases "clean_table df") (auto simp: ncols_def)
qed

lemma rect_clean_table: "rect (clean_table df)"
proof (cases "clean_table df = []")
  case True
  then show ?thesis by (simp add: rect_def)
next
  case False
  have "length row = length (kept_columns (dropna df))" if "row \<in> set (map snd (clean_table df))" for row
    using that unfolding map_snd_clean_table by auto
  then show ?thesis
    using ncols_clean_table [OF False] by (force simp: rect_iff)
qed

lemma clean_columns_not_all_na:
  assumes "j < ncols (clean_table df)"
  shows "\<not> all_na (column j (clean_table df))"
proof -
  let ?f = "dropna df" and ?k = "kept_columns (dropna df)"
  from assms have ne: "clean_table df \<noteq> []" by (auto simp: ncols_def)
  from assms ncols_clean_table [OF ne] have jk: "j < length ?k" by simp
  then have "?k ! j \<in> set ?k" by simp
  then have "\<not> all_na (column (?k ! j) ?f)" by (simp add: kept_columns_def)
  then obtain idx row where m: "(idx, row) \<in> set ?f" and nn: "row ! (?k ! j) \<noteq> Empty"
    by (auto simp: all_na_iff column_def)
  have "column j (clean_table df) = map (\<lambda>row. row ! j) (map snd (clean_table df))"
    by (simp add: column_def case_prod_unfold comp_def)
  also have "\<dots> = map (\<lambda>row. row ! (?k ! j)) (map snd ?f)"
    using jk by (simp add: map_snd_clean_table comp_def)
  finally have "row ! (?k ! j) \<in> set (column j (clean_table df))"
    using m by force
  with nn show ?thesis by (auto simp: all_na_iff)
qed

lemma clean_table_fixpoint:
  assumes idx: "map fst d = [0..<length d]"
    and r: "rect d"
    and rows: "\<And>row. row \<in> set (map snd d) \<Longrightarrow> \<not> all_na row"
    and cols: "\<And>j. j < ncols d \<Longrightarrow> \<not> all_na (column j d)"
  shows "clean_table d = d"
proof -
  have 1: "dropna d = d"
    unfolding dropna_def using rows by (intro filter_True) force
  have "kept_columns d = [0..<ncols d]"
    unfolding kept_columns_def using cols by (intro filter_True) simp
  moreover have "map ((!) row) [0..<ncols d] = row" if "(idx, row) \<in> set d" for idx row
  proof -
    from that r have "length row = ncols d" by (auto simp: rect_iff)
    then show ?thesis using map_nth [of row] by simp
  qed
  ultimately have 2: "dropna_axis1 d = d"
    unfolding dropna_axis1_alt by (intro map_idI) auto
  have "reset_index d = zip (map fst d) (map snd d)"
    by (simp add: reset_index_def idx)
  then have 3: "reset_index d = d" by (simp add: zip_map_fst_snd)
  show ?thesis by (simp add: clean_table_def 1 2 3)
qed

lemma clean_table_idem: "rect df \<Longrightarrow> clean_table (clean_table df) = clean_table df"
  by (rule clean_table_fixpoint)
     (simp_all add: map_fst_clean_table length_clean_table rect_clean_table
        clean_rows_not_all_na clean_columns_not_all_na)

subsection \<open>The cleaned grid as a restriction of the input\<close>

lemma map_snd_dropna: "map snd (dropna df) = nths (map snd df) (set (surviving_rows df))"
proof -
  have "map snd (dropna df) = filter (\<lambda>row. \<not> all_na row) (map snd df)"
    by (simp add: dropna_def filter_map comp_def case_prod_unfold)
  also have "\<dots> = nths (map snd df) {i. i < length (map snd df) \<and> \<not> all_na (map snd df ! i)}"
    by (rule filter_eq_nths)
  also have "\<dots> = nths (map snd df) (set (surviving_rows df))"
    by (rule nths_agree) (simp add: surviving_rows_def)
  finally show ?thesis .
qed

lemma bex_set_nth: "(\<exists>p\<in>set xs. P p) \<longleftrightarrow> (\<exists>i<length xs. P (xs ! i))"
  by (metis in_set_conv_nth)

lemma column_dropna_na:
  "\<not> all_na (column j (dropna df)) \<longleftrightarrow> (\<exists>i\<in>set (surviving_rows df). notna (snd (df ! i) ! j))"
proof -
  have "\<not> all_na (column j (dropna df)) \<longleftrightarrow> (\<exists>(idx, row)\<in>set (dropna df). notna (row ! j))"
    by (force simp: all_na_iff column_def notna_iff)
  also have "\<dots> \<longleftrightarrow> (\<exists>p\<in>set df. \<not> all_na (snd p) \<and> notna (snd p ! j))"
    by (force simp: set_dropna)
  also have "\<dots> \<longleftrightarrow> (\<exists>i<length df. \<not> all_na (snd (df ! i)) \<and> notna (snd (df ! i) ! j))"
    by (rule bex_set_nth)
  finally show ?thesis by (auto simp: surviving_rows_def)
qed

lemma project_row:
  assumes "rect df" "(idx, row) \<in> set (dropna df)"
  shows "map ((!) row) (kept_columns (dropna df)) = nths row (set (surviving_columns df))"
proof -
  from assms(2) have "dropna df \<noteq> []" by auto
  then have n: "ncols (dropna df) = ncols df"
    unfolding dropna_def by (rule ncols_filter [OF assms(1)])
  from assms(2) have "(idx, row) \<in> set df" by (simp add: set_dropna)
  with assms(1) have l: "length row = ncols df" by (auto simp: rect_iff)
  have "map ((!) row) (kept_columns (dropna df)) =
        map ((!) row) (filter (\<lambda>j. \<not> all_na (column j (dropna df))) [0..<length row])"
    by (simp add: kept_columns_def n l)
  also have "\<dots> = nths row {j. \<not> all_na (column j (dropna df))}"
    by (rule map_nth_filter_upt)
  also have "\<dots> = nths row (set (surviving_columns df))"
    by (rule nths_agree) (simp add: surviving_columns_def column_dropna_na l)
  finally show ?thesis .
qed

lemma clean_table_rows:
  assumes "rect df"
  shows "map snd (clean_table df) =
         map (\<lambda>row. nths row (set (surviving_columns df))) (nths (map snd df) (set (surviving_rows df)))"
proof -
  have "map snd (clean_table df) =
        map (\<lambda>row. map ((!) row) (kept_columns (dropna df))) (map snd (dropna df))"
    by (rule map_snd_clean_table)
  also have "\<dots> = map (\<lambda>row. nths row (set (surviving_columns df))) (map snd (dropna df))"
    by (rule map_cong) (auto simp: project_row [OF assms])
  finally show ?thesis by (simp add: map_snd_dropna)
qed

lemma length_dropna: "length (dropna df) = length (surviving_rows df)"
proof -
  have "length (dropna df) = length (map snd (dropna df))" by simp
  also have "\<dots> = card {i. i < length df \<and> i \<in> set (surviving_rows df)}"
    by (simp only: map_snd_dropna length_nths length_map)
  also have "{i. i < length df \<and> i \<in> set (surviving_rows df)} = set (surviving_rows df)"
    by (auto simp: surviving_rows_def)
  also have "card (set (surviving_rows df)) = length (surviving_rows df)"
    by (rule distinct_card) (simp add: surviving_rows_def)
  finally show ?thesis .
qed

subsection \<open>Markers and segments\<close>

lemma is_header_iff: "is_header (first_cell row) \<longleftrightarrow> table_start_marker row"
proof (cases row)
  case Nil
  then show ?thesis by (simp add: is_header_def first_cell_def table_start_marker_def)
next
  case (Cons c cs)
  then show ?thesis
    by (cases c) (simp_all add: is_header_def first_cell_def table_start_marker_def)
qed

lemma header_name:
  "table_start_marker (snd (df ! i)) \<Longrightarrow> strip (py_str (first_cell (snd (df ! i)))) = marker_name df i"
  by (auto simp: table_start_marker_def marker_name_def first_cell_def split: list.splits cell.splits)

lemma marker_name_nonempty: "table_start_marker (snd (df ! i)) \<Longrightarrow> marker_name df i \<noteq> []"
  by (auto simp: table_start_marker_def marker_name_def split: list.splits cell.splits)

lemma iloc_rows_between: "i \<le> length df \<Longrightarrow> iloc j i df = rows_between df j i"
proof -
  assume le: "i \<le> length df"
  have "take (i - j) (drop j df) = map ((!) df) [j..<i]"
  proof (rule nth_equalityI)
    show "length (take (i - j) (drop j df)) = length (map ((!) df) [j..<i])"
      using le by auto
  next
    fix k assume "k < length (take (i - j) (drop j df))"
    then show "take (i - j) (drop j df) ! k = map ((!) df) [j..<i] ! k"
      using le by auto
  qed
  then show ?thesis by (simp add: iloc_def rows_between_def)
qed

lemma iloc_from_rows_between: "iloc_from j df = rows_between df j (length df)"
  using iloc_rows_between [of "length df" df j] by (simp add: iloc_def iloc_from_def)

lemma zip_tl_snoc: "ms \<noteq> [] \<Longrightarrow> zip (ms @ [k]) (tl ms @ [k']) = zip ms (tl ms) @ [(last ms, k')]"
proof (induction ms)
  case Nil
  then show ?case by simp
next
  case (Cons m ms)
  show ?case
  proof (cases ms)
    case Nil
    then show ?thesis by simp
  next
    case (Cons a as)
    with Cons.IH show ?thesis by simp
  qed
qed

lemma segments_eq: "ms \<noteq> [] \<Longrightarrow> segments ms n = zip ms (tl ms) @ [(last ms, n)]"
  unfolding segments_def
proof (induction ms)
  case Nil
  then show ?case by simp
next
  case (Cons m ms)
  show ?case
  proof (cases ms)
    case Nil
    then show ?thesis by simp
  next
    case (Cons a as)
    with Cons.IH show ?thesis by simp
  qed
qed

lemma pairs_snoc: "ms \<noteq> [] \<Longrightarrow> zip (ms @ [k]) (tl (ms @ [k])) = zip ms (tl ms) @ [(last ms, k)]"
  using zip_tl_snoc [of ms k k] by simp

subsection \<open>The invariant of the segmenting loop\<close>

lemma store_cleaned_snoc:
  "store_cleaned t (ws @ [(name, g)]) = AList.update name (clean_table g) (store_cleaned t ws)"
  by (simp add: store_cleaned_def)

lemma markers_upto_Suc:
  "markers_upto df (Suc k) =
     markers_upto df k @ (if table_start_marker (snd (df ! k)) then [k] else [])"
  by (simp add: markers_upto_def)

lemma markers_upto_marker: "i \<in> set (markers_upto df k) \<Longrightarrow> table_start_marker (snd (df ! i))"
  by (simp add: markers_upto_def)

lemma range_index_nth: "range_index df \<Longrightarrow> k < length df \<Longrightarrow> df ! k = (k, snd (df ! k))"
proof -
  assume r: "range_index df" and k: "k < length df"
  have "fst (df ! k) = map fst df ! k" using k by simp
  also have "\<dots> = k" using r k by (simp add: range_index_def)
  finally show ?thesis by (simp add: prod_eq_iff)
qed

lemma seg_step_other:
  "\<not> table_start_marker row \<Longrightarrow> seg_step df st (idx, row) = st"
  by (simp add: seg_step_def is_header_iff split: prod.splits)

lemma seg_step_marker:
  assumes "table_start_marker (snd (df ! k))" "k < length df"
  shows "seg_step df (seg_state_upto df k) (k, snd (df ! k)) = seg_state_upto df (Suc k)"
proof (cases "markers_upto df k = []")
  case True
  then show ?thesis
    using assms(1)
    by (simp add: seg_step_def seg_state_upto_def markers_upto_Suc is_header_iff
        save_table_def header_name store_cleaned_def Let_def)
next
  case False
  let ?ms = "markers_upto df k"
  from False have "last ?ms \<in> set ?ms" by simp
  then have nm: "marker_name df (last ?ms) \<noteq> []"
    by (intro marker_name_nonempty markers_upto_marker)
  have il: "iloc (last ?ms) k df = rows_between df (last ?ms) k"
    using assms(2) by (intro iloc_rows_between) simp
  have "store_cleaned [] (map (segment_of df) (zip (?ms @ [k]) (tl (?ms @ [k])))) =
        AList.update (marker_name df (last ?ms)) (clean_table (rows_between df (last ?ms) k))
          (store_cleaned [] (map (segment_of df) (zip ?ms (tl ?ms))))"
    by (simp only: pairs_snoc [OF False] map_append list.map segment_of_def prod.case
        store_cleaned_snoc)
  then show ?thesis
    using assms(1) False nm il
    by (simp add: seg_step_def seg_state_upto_def markers_upto_Suc is_header_iff
        save_table_def header_name Let_def)
qed

lemma seg_loop:
  assumes "range_index df" "k \<le> length df"
  shows "foldl (seg_step df) ([], None, None) (take k df) = seg_state_upto df k"
  using assms(2)
proof (induction k)
  case 0
  then show ?case by (simp add: seg_state_upto_def markers_upto_def store_cleaned_def)
next
  case (Suc k)
  then have k: "k < length df" by simp
  have "foldl (seg_step df) ([], None, None) (take (Suc k) df) =
        seg_step df (seg_state_upto df k) (k, snd (df ! k))"
    using Suc k range_index_nth [OF assms(1) k] by (simp add: take_Suc_conv_app_nth)
  also have "\<dots> = seg_state_upto df (Suc k)"
  proof (cases "table_start_marker (snd (df ! k))")
    case True
    then show ?thesis using k by (rule seg_step_marker)
  next
    case False
    then show ?thesis
      by (simp add: seg_step_other seg_state_upto_def markers_upto_Suc Let_def)
  qed
  finally show ?case .
qed

lemma identify_tables_in_sheet_segmentation:
  assumes "range_index df"
  shows "identify_tables_in_sheet df sheet_name =
         (if markers df = [] then [(fallback_name sheet_name, clean_table df)]
          else store_cleaned [] (segmentation df))"
proof -
  have loop: "foldl (seg_step df) ([], None, None) (iterrows df) = seg_state_upto df (length df)"
    using seg_loop [OF assms, of "length df"] by (simp add: iterrows_def)
  have mu: "markers_upto df (length df) = markers df"
    by (simp add: markers_upto_def markers_def)
  show ?thesis
  proof (cases "markers df = []")
    case True
    then show ?thesis
      by (simp add: identify_tables_in_sheet_def loop seg_state_upto_def mu save_table_def
          store_cleaned_def Let_def)
  next
    case False
    let ?ms = "markers df"
    from False have "last ?ms \<in> set ?ms" by simp
    then have "table_start_marker (snd (df ! last ?ms))" by (simp add: markers_def)
    then have nm: "marker_name df (last ?ms) \<noteq> []" by (rule marker_name_nonempty)
    have seg: "store_cleaned [] (segmentation df) =
          AList.update (marker_name df (last ?ms)) (clean_table (rows_between df (last ?ms) (length df)))
            (store_cleaned [] (map (segment_of df) (zip ?ms (tl ?ms))))"
      unfolding segmentation_def segments_eq [OF False]
      by (simp add: store_cleaned_snoc segment_of_def)
    show ?thesis
      using False nm
      by (simp add: identify_tables_in_sheet_def loop seg_state_upto_def mu save_table_def
          iloc_from_rows_between seg Let_def)
  qed
qed

subsection \<open>Lookups in the store\<close>

lemma identify_sheet_writes:
  "range_index df \<Longrightarrow> identify_tables_in_sheet df sheet_name = store_cleaned [] (sheet_writes df sheet_name)"
  by (simp add: identify_tables_in_sheet_segmentation sheet_writes_def store_cleaned_def)

lemma map_of_store_cleaned:
  "map_of (store_cleaned t ws) n =
     (case map_of (rev ws) n of Some g \<Rightarrow> Some (clean_table g) | None \<Rightarrow> map_of t n)"
proof (induction ws rule: rev_induct)
  case Nil
  then show ?case by (simp add: store_cleaned_def)
next
  case (snoc w ws)
  obtain k g where w: "w = (k, g)" by (cases w)
  show ?case unfolding w store_cleaned_snoc using snoc
    by (simp add: AList.update_conv')
qed

lemma map_of_dict_update:
  "map_of (dict_update d other) n =
     (case map_of (rev other) n of Some v \<Rightarrow> Some v | None \<Rightarrow> map_of d n)"
proof (induction other rule: rev_induct)
  case Nil
  then show ?case by (simp add: dict_update_def)
next
  case (snoc w ws)
  obtain k g where w: "w = (k, g)" by (cases w)
  have "dict_update d (ws @ [(k, g)]) = AList.update k g (dict_update d ws)"
    by (simp add: dict_update_def)
  then show ?case unfolding w using snoc by (simp add: AList.update_conv')
qed

lemma distinct_store_cleaned: "distinct (map fst t) \<Longrightarrow> distinct (map fst (store_cleaned t ws))"
proof (induction ws rule: rev_induct)
  case Nil
  then show ?case by (simp add: store_cleaned_def)
next
  case (snoc w ws)
  obtain k g where w: "w = (k, g)" by (cases w)
  show ?case unfolding w store_cleaned_snoc using snoc by (simp add: AList.distinct_update)
qed

lemma map_of_rev_distinct: "distinct (map fst xs) \<Longrightarrow> map_of (rev xs) = map_of xs"
proof (induction xs)
  case Nil
  then show ?case by simp
next
  case (Cons x xs)
  then have "fst x \<notin> dom (map_of xs)" by (simp add: dom_map_of_conv_image_fst)
  then have "map_of (rev xs) (fst x) = None" using Cons by (auto simp: domIff)
  then show ?case using Cons
    by (auto simp: fun_eq_iff map_add_def split: option.splits)
qed

lemma map_of_process_tables_snoc:
  "process_tables (wb @ [(sheet_name, df)]) =
     dict_update (process_tables wb) (identify_tables_in_sheet df sheet_name)"
  by (simp add: process_tables_def)

lemma map_of_process_tables:
  assumes "\<forall>(sheet_name, df)\<in>set excel_data. range_index df"
  shows "map_of (process_tables excel_data) n =
         map_option clean_table (map_of (rev (all_writes excel_data)) n)"
  using assms
proof (induction excel_data rule: rev_induct)
  case Nil
  then show ?case by (simp add: process_tables_def all_writes_def)
next
  case (snoc x wb)
  obtain sheet_name df where x: "x = (sheet_name, df)" by (cases x)
  from snoc.prems have r: "range_index df" and rest: "\<forall>(sheet_name, df)\<in>set wb. range_index df"
    by (auto simp: x)
  let ?ws = "sheet_writes df sheet_name"
  have d: "distinct (map fst (store_cleaned ([] :: 'a tables) ?ws))"
    by (rule distinct_store_cleaned) simp
  have "map_of (process_tables (wb @ [x])) n =
        (case map_of (store_cleaned [] ?ws) n of Some v \<Rightarrow> Some v
         | None \<Rightarrow> map_of (process_tables wb) n)"
    by (simp add: x map_of_process_tables_snoc map_of_dict_update identify_sheet_writes [OF r]
        map_of_rev_distinct [OF d])
  also have "\<dots> = (case map_of (rev ?ws) n of Some g \<Rightarrow> Some (clean_table g)
         | None \<Rightarrow> map_option clean_table (map_of (rev (all_writes wb)) n))"
    by (simp add: map_of_store_cleaned snoc.IH [OF rest] split: option.splits)
  also have "\<dots> = map_option clean_table (map_of (rev (all_writes (wb @ [x]))) n)"
    by (simp add: all_writes_def x map_add_def split: option.splits)
  finally show ?case .
qed

lemma store_last_write_wins:
  assumes "\<forall>(sheet_name, df)\<in>set excel_data. range_index df"
    and "all_writes excel_data = earlier @ (name, g) # later"
    and "name \<notin> fst ` set later"
  shows "map_of (process_tables excel_data) name = Some (clean_table g)"
proof -
  have "map_of (rev later) name = None"
    using assms(3) by (simp add: map_of_eq_None_iff)
  then have "map_of (rev (all_writes excel_data)) name = Some g"
    by (simp add: assms(2) map_add_def)
  then show ?thesis by (simp add: map_of_process_tables [OF assms(1)])
qed

subsection \<open>Rows of the stored tables\<close>








lemma no_marker_loop:
  "\<forall>(idx, row)\<in>set rs. \<not> table_start_marker row \<Longrightarrow> foldl (seg_step df) st rs = st"
  by (induction rs arbitrary: st) (auto simp: seg_step_other)

lemma no_marker_sheet:
  assumes "\<forall>(idx, row)\<in>set df. \<not> table_start_marker row"
  shows "identify_tables_in_sheet df sheet_name =
         [(if sheet_name \<noteq> [] then ''Sheet_'' @ sheet_name else ''Default_Table'', clean_table df)]"
  using no_marker_loop [OF assms, of df]
  by (simp add: identify_tables_in_sheet_def iterrows_def save_table_def fallback_name_def)

subsection \<open>The loops of the queries\<close>

lemma first_cell_hd: "first_cell row = (if row = [] then Empty else hd row)"
  by (cases row) (simp_all add: first_cell_def)

lemma find_target_row_find:
  "find_target_row row_name df = find (label_matches row_name) (map snd df)"
  by (induction df) (auto simp: label_matches_def first_cell_hd notna_iff)

lemma replace_chars:
  "replace_char (CHR '','') (replace_char (CHR ''$'') (replace_char (CHR ''%'') s)) =
   remove_symbols s"
  by (induction s) (auto simp: replace_char_def remove_symbols_def)

lemma add_value_coerce:
  "add_value float_str acc c = (case coerce float_str c of Some v \<Rightarrow> acc + v | None \<Rightarrow> acc)"
  by (cases c) (simp_all add: add_value_def coerce_def replace_chars Let_def)

lemma sum_loop_coerce:
  "foldl (add_value float_str) acc cs = foldl (+) acc (List.map_filter (coerce float_str) cs)"
proof (induction cs arbitrary: acc)
  case Nil
  then show ?case by (simp add: List.map_filter_simps)
next
  case (Cons c cs)
  then show ?case
    by (cases "coerce float_str c") (simp_all add: List.map_filter_simps add_value_coerce)
qed

lemma calculate_row_sum_spec:
  assumes "map_of tables table_name = Some df"
  shows "calculate_row_sum float_str tables table_name row_name =
         (case find (label_matches row_name) (map snd df) of
            None \<Rightarrow> Inl (row_not_found row_name table_name)
          | Some row \<Rightarrow> Inr (foldl (+) 0 (List.map_filter (coerce float_str) (tl row))))"
  using assms
  by (simp add: calculate_row_sum_def iterrows_def find_target_row_find sum_loop_coerce drop_Suc
      split: option.splits)

lemma map_filter_none: "(\<forall>c\<in>set cs. f c = None) \<Longrightarrow> List.map_filter f cs = []"
  by (induction cs) (simp_all add: List.map_filter_simps)

lemma strip_spaces:
  assumes "\<forall>c\<in>set ws1. isspace c" "\<forall>c\<in>set ws2. isspace c"
  shows "strip (ws1 @ t @ ws2) = strip t"
proof -
  have 1: "dropWhile isspace (ws1 @ t @ ws2) = dropWhile isspace (t @ ws2)"
    using assms(1) by (simp add: dropWhile_append2)
  show ?thesis
  proof (cases "\<forall>c\<in>set t. isspace c")
    case True
    then have "dropWhile isspace (t @ ws2) = []" "dropWhile isspace t = []"
      using assms(2) unfolding dropWhile_eq_Nil_conv by auto
    then show ?thesis by (simp only: strip_def 1)
  next
    case False
    then have "dropWhile isspace (t @ ws2) = dropWhile isspace t @ ws2"
      by (auto simp: dropWhile_append1)
    moreover have "dropWhile isspace (rev ws2 @ rev (dropWhile isspace t)) =
                   dropWhile isspace (rev (dropWhile isspace t))"
      using assms(2) by (intro dropWhile_append2) simp
    ultimately show ?thesis by (simp only: strip_def 1 rev_append)
  qed
qed

lemma coerce_decorated:
  assumes "\<forall>c\<in>set ws1. isspace c" "\<forall>c\<in>set ws2. isspace c"
    and "remove_symbols s' = ws1 @ remove_symbols s @ ws2"
  shows "coerce float_str (Text s') = coerce float_str (Text s)"
  by (simp add: coerce_def assms(3) strip_spaces [OF assms(1,2)])

lemma sum_loop_decorated:
  assumes "\<forall>c\<in>set ws1. isspace c" "\<forall>c\<in>set ws2. isspace c"
    and "remove_symbols s' = ws1 @ remove_symbols s @ ws2"
  shows "foldl (add_value float_str) acc (before @ Text s' # after) =
         foldl (add_value float_str) acc (before @ Text s # after)"
  by (simp add: add_value_coerce coerce_decorated [OF assms])

lemma labels_loop:
  "foldl (\<lambda>row_names (idx, row).
            if notna (first_cell row) then row_names @ [py_str (first_cell row)] else row_names)
     acc df = acc @ row_labels df"
  by (induction df arbitrary: acc) (auto simp: row_labels_def first_cell_hd notna_iff)

subsection \<open>Results of the queries\<close>

lemma get_table_row_names_labels:
  assumes "map_of tables table_name = Some df"
  shows "get_table_row_names tables table_name = Inr (if df_empty df then [] else row_labels df)"
  using assms by (simp add: get_table_row_names_def iterrows_def labels_loop)

lemma label_found:
  "name \<in> set (row_labels df) \<Longrightarrow> \<exists>row. find (label_matches name) (map snd df) = Some row"
proof -
  assume "name \<in> set (row_labels df)"
  then obtain row where "row \<in> set (map snd df)" "label_matches name row"
    by (auto simp: row_labels_def label_matches_def)
  then have "find (label_matches name) (map snd df) \<noteq> None"
    by (auto simp: find_None_iff)
  then show ?thesis by auto
qed

lemma listed_label_has_sum:
  assumes "get_table_row_names tables table_name = Inr names" "name \<in> set names"
  shows "calculate_row_sum float_str tables table_name name \<noteq> Inl (row_not_found name table_name)
       \<and> (\<exists>v. calculate_row_sum float_str tables table_name name = Inr v)"
proof -
  from assms(1) obtain df where df: "map_of tables table_name = Some df"
    by (cases "map_of tables table_name") (auto simp: get_table_row_names_def)
  with assms have "name \<in> set (row_labels df)"
    by (auto simp: get_table_row_names_labels split: if_splits)
  then obtain row where "find (label_matches name) (map snd df) = Some row"
    using label_found by blast
  then show ?thesis by (simp add: calculate_row_sum_spec [OF df])
qed

lemma table_absent:
  assumes "map_of tables table_name = None"
  shows "get_table_row_names tables table_name = Inl (table_not_found table_name)"
    and "calculate_row_sum float_str tables table_name row_name = Inl (table_not_found table_name)"
  using assms by (simp_all add: get_table_row_names_def calculate_row_sum_def)

lemma row_absent:
  assumes "map_of tables table_name = Some df" "\<forall>row\<in>snd ` set df. \<not> label_matches row_name row"
  shows "calculate_row_sum float_str tables table_name row_name = Inl (row_not_found row_name table_name)"
proof -
  have "find (label_matches row_name) (map snd df) = None"
    using assms(2) by (auto simp: find_None_iff)
  then show ?thesis by (simp add: calculate_row_sum_spec [OF assms(1)])
qed

lemma not_found_distinct: "row_not_found row_name table_name \<noteq> table_not_found other"
  by (simp add: row_not_found_def table_not_found_def)

lemma not_found_results:
  "(map_of tables table_name = None \<longrightarrow>
      get_table_row_names tables table_name = Inl (table_not_found table_name) \<and>
      calculate_row_sum float_str tables table_name row_name = Inl (table_not_found table_name))
   \<and> (map_of tables table_name = Some df \<and> (\<forall>row\<in>snd ` set df. \<not> label_matches row_name row) \<longrightarrow>
      calculate_row_sum float_str tables table_name row_name = Inl (row_not_found row_name table_name))
   \<and> row_not_found row_name table_name \<noteq> table_not_found other
   \<and> status_code (row_not_found row_name table_name) = 404
   \<and> status_code (table_not_found table_name) = 404"
  using not_found_distinct [of row_name table_name other]
  by (simp add: table_absent row_absent row_not_found_def table_not_found_def)

lemma find_replace:
  assumes "P a \<longleftrightarrow> P b" "f a = f b"
  shows "map_option f (find P (xs @ a # ys)) = map_option f (find P (xs @ b # ys))"
  using assms by (induction xs) auto

lemma calculate_row_sum_find:
  assumes "map_of tables table_name = Some df"
  shows "calculate_row_sum float_str tables table_name row_name =
         (case map_option (\<lambda>row. foldl (add_value float_str) 0 (tl row))
                 (find (label_matches row_name) (map snd df)) of
            None \<Rightarrow> Inl (row_not_found row_name table_name)
          | Some v \<Rightarrow> Inr v)"
  using assms
  by (simp add: calculate_row_sum_def iterrows_def find_target_row_find drop_Suc
      split: option.splits)

lemma row_sum_decorated:
  assumes "\<forall>c\<in>set ws1. isspace c" "\<forall>c\<in>set ws2. isspace c"
    and "remove_symbols s' = ws1 @ remove_symbols s @ ws2"
    and "map_of tables table_name = Some (rows_above @ (idx, label # before @ Text s # after) # rows_below)"
    and "map_of tables' table_name = Some (rows_above @ (idx, label # before @ Text s' # after) # rows_below)"
  shows "calculate_row_sum float_str tables' table_name row_name =
         calculate_row_sum float_str tables table_name row_name"
proof -
  let ?a = "label # before @ Text s # after" and ?b = "label # before @ Text s' # after"
  let ?f = "\<lambda>row. foldl (add_value float_str) (0::'a) (tl row)"
  have m: "label_matches row_name ?b \<longleftrightarrow> label_matches row_name ?a"
    by (simp add: label_matches_def)
  have s: "?f ?b = ?f ?a"
    using sum_loop_decorated [OF assms(1-3), of float_str 0 before after] by simp
  have "map_option ?f (find (label_matches row_name) (map snd rows_above @ ?b # map snd rows_below)) =
        map_option ?f (find (label_matches row_name) (map snd rows_above @ ?a # map snd rows_below))"
    using m s by (rule find_replace)
  then show ?thesis
    by (simp add: calculate_row_sum_find [OF assms(4)] calculate_row_sum_find [OF assms(5)])
qed

lemma markers_Nil_iff: "markers df = [] \<longleftrightarrow> (\<forall>(idx, row)\<in>set df. \<not> table_start_marker row)"
proof -
  have "markers df = [] \<longleftrightarrow> (\<forall>i<length df. \<not> table_start_marker (snd (df ! i)))"
    by (auto simp: markers_def filter_empty_conv)
  also have "\<dots> \<longleftrightarrow> (\<forall>p\<in>set df. \<not> table_start_marker (snd p))"
    by (metis in_set_conv_nth)
  finally show ?thesis by (simp add: case_prod_unfold)
qed

section \<open>Properties of the cleaner\<close>

text \<open>
  Claim C4. Cleaning is idempotent: on every (rectangular) sub-grid, cleaning the cleaned
  grid again, that is removing the all-empty rows, then the all-empty columns, then
  renumbering the rows from 0, gives the cleaned grid itself.
\<close>

theorem clean_table_idempotent:
  assumes "rect df"
  shows "clean_table (clean_table df) = clean_table df"
  using assms by (rule clean_table_idem)

theorem clean_table_idempotent_witness:
  "rect example_sheet \<and> clean_table (clean_table example_sheet) = clean_table example_sheet
   \<and> clean_table example_sheet \<noteq> example_sheet"
proof -
  have h: "rect example_sheet" by code_simp
  have d: "clean_table example_sheet \<noteq> example_sheet" by code_simp
  show ?thesis using h d clean_table_idempotent [OF h] by simp
qed

text \<open>
  Claim C5. The cleaner returns a new grid: the rows whose cells are all empty are removed;
  then the columns whose cells are all empty in the remaining rows are removed; the rows
  are renumbered 0, 1, 2, ... The surviving cells keep their order in both directions:
  the result is the input restricted to the surviving row positions and the surviving
  column positions (\<^const>\<open>nths\<close> keeps the order of the list it selects from). The cleaner
  is a function of its argument, which it cannot change.
\<close>

theorem clean_table_contract:
  assumes "rect df"
  shows "map snd (clean_table df) =
           map (\<lambda>row. nths row (set (surviving_columns df)))
             (nths (map snd df) (set (surviving_rows df)))
       \<and> map fst (clean_table df) = [0..<length (surviving_rows df)]"
  using clean_table_rows [OF assms] by (simp add: map_fst_clean_table length_dropna)

theorem clean_table_contract_witness:
  "rect example_sheet
   \<and> surviving_rows example_sheet = [0, 1, 3, 4]
   \<and> surviving_columns example_sheet = [0, 1, 2]
   \<and> surviving_columns (rows_between example_sheet 3 5) = [0, 2]
   \<and> map snd (clean_table example_sheet) =
       [[Text ''Revenue'', Text ''100'', Text ''200''],
        [Text ''Costs'', Text ''-50'', Text ''-30''],
        [Text '' Revenue '', Empty, Text ''1200.50%''],
        [Number ''7'' 7, Empty, Raw ''2020-01-01'']]
   \<and> map fst (clean_table example_sheet) = [0, 1, 2, 3]"
proof -
  have h: "rect example_sheet" by code_simp
  have r: "surviving_rows example_sheet = [0, 1, 3, 4]" by code_simp
  have c: "surviving_columns example_sheet = [0, 1, 2]" by code_simp
  have c': "surviving_columns (rows_between example_sheet 3 5) = [0, 2]" by code_simp
  have e: "map (\<lambda>row. nths row (set (surviving_columns example_sheet)))
             (nths (map snd example_sheet) (set (surviving_rows example_sheet))) =
       [[Text ''Revenue'', Text ''100'', Text ''200''],
        [Text ''Costs'', Text ''-50'', Text ''-30''],
        [Text '' Revenue '', Empty, Text ''1200.50%''],
        [Number ''7'' 7, Empty, Raw ''2020-01-01'']]"
    by code_simp
  have i: "[0..<length (surviving_rows example_sheet)] = [0, 1, 2, 3]" by code_simp
  show ?thesis using h r c c' e i clean_table_contract [OF h] by simp
qed

section \<open>Properties of the segmenter\<close>

text \<open>
  Claim C2. The segmenter is one pass over the rows from top to bottom. A row is a
  table-start marker iff its first cell is non-empty, is text, and is non-empty after
  trimming: the program's test is \<^const>\<open>table_start_marker\<close>. With the markers at the
  rows \<open>m\<^sub>0 < m\<^sub>1 < ... < m\<^sub>k\<close>, the program stores, in this order, the sub-grid of
  the rows \<open>[m\<^sub>0, m\<^sub>1)\<close> under the trimmed text of the marker cell of \<open>m\<^sub>0\<close>, ..., and
  at the end of the scan the rows \<open>[m\<^sub>k, end of sheet)\<close> under the name of \<open>m\<^sub>k\<close>; each
  sub-grid is cleaned as it is stored. (A sheet without marker is the fallback of C8.)
\<close>

theorem segmenter_single_pass:
  fixes df :: "'f dataframe"
  assumes "range_index df"
  shows "(\<forall>row :: 'f cell list. is_header (first_cell row) \<longleftrightarrow> table_start_marker row)
       \<and> identify_tables_in_sheet df sheet_name =
           (if markers df = [] then [(fallback_name sheet_name, clean_table df)]
            else store_cleaned [] (segmentation df))"
  using identify_tables_in_sheet_segmentation [OF assms] by (simp add: is_header_iff)

theorem segmenter_single_pass_witness:
  "range_index example_sheet
   \<and> markers example_sheet = [0, 1, 3]
   \<and> segments (markers example_sheet) (length example_sheet) = [(0, 1), (1, 3), (3, 5)]
   \<and> map fst (segmentation example_sheet) = [''Revenue'', ''Costs'', ''Revenue'']
   \<and> identify_tables_in_sheet example_sheet ''S'' =
       [(''Revenue'', [(0, [Text '' Revenue '', Text ''1200.50%'']),
                       (1, [Number ''7'' 7, Raw ''2020-01-01''])]),
        (''Costs'', [(0, [Text ''Costs'', Text ''-50'', Text ''-30''])])]
   \<and> range_index spaced_sheet
   \<and> markers spaced_sheet = [0, 2]
   \<and> map fst (segmentation spaced_sheet) = [''Total'', ''Total'']
   \<and> identify_tables_in_sheet spaced_sheet ''S'' =
       [(''Total'', [(0, [Text (CHR 0x85 # ''Total''), Text (CHR 0xA0 # ''1200.50'')])])]"
proof -
  have h: "range_index example_sheet" by code_simp
  have m: "markers example_sheet = [0, 1, 3]" by code_simp
  have s: "segments (markers example_sheet) (length example_sheet) = [(0, 1), (1, 3), (3, 5)]"
    by code_simp
  have n: "map fst (segmentation example_sheet) = [''Revenue'', ''Costs'', ''Revenue'']"
    by code_simp
  have e: "store_cleaned [] (segmentation example_sheet) =
       [(''Revenue'', [(0, [Text '' Revenue '', Text ''1200.50%'']),
                       (1, [Number ''7'' 7, Raw ''2020-01-01''])]),
        (''Costs'', [(0, [Text ''Costs'', Text ''-50'', Text ''-30''])])]"
    by code_simp
  have ne: "markers example_sheet \<noteq> []" by (simp add: m)
  from segmenter_single_pass [OF h, of "''S''"] ne
  have "identify_tables_in_sheet example_sheet ''S'' = store_cleaned [] (segmentation example_sheet)"
    by simp
  then have r: "identify_tables_in_sheet example_sheet ''S'' =
       [(''Revenue'', [(0, [Text '' Revenue '', Text ''1200.50%'']),
                       (1, [Number ''7'' 7, Raw ''2020-01-01''])]),
        (''Costs'', [(0, [Text ''Costs'', Text ''-50'', Text ''-30''])])]"
    by (simp only: e)
  have h2: "range_index spaced_sheet" by code_simp
  have m2: "markers spaced_sheet = [0, 2]" by code_simp
  have n2: "map fst (segmentation spaced_sheet) = [''Total'', ''Total'']" by code_simp
  have e2: "store_cleaned [] (segmentation spaced_sheet) =
       [(''Total'', [(0, [Text (CHR 0x85 # ''Total''), Text (CHR 0xA0 # ''1200.50'')])])]"
    by code_simp
  have ne2: "markers spaced_sheet \<noteq> []" by (simp add: m2)
  from segmenter_single_pass [OF h2, of "''S''"] ne2
  have "identify_tables_in_sheet spaced_sheet ''S'' = store_cleaned [] (segmentation spaced_sheet)"
    by simp
  then have r2: "identify_tables_in_sheet spaced_sheet ''S'' =
       [(''Total'', [(0, [Text (CHR 0x85 # ''Total''), Text (CHR 0xA0 # ''1200.50'')])])]"
    by (simp only: e2)
  from h m s n r h2 m2 n2 r2 show ?thesis by (intro conjI)
qed

text \<open>
  Claim C8. A sheet with no table-start marker yields exactly one table, the whole sheet
  (cleaned), named \<^verbatim>\<open>Sheet_<sheet name>\<close> when the sheet name is non-empty and
  \<^verbatim>\<open>Default_Table\<close> otherwise.
\<close>

theorem no_marker_single_table:
  assumes "markers df = []"
  shows "identify_tables_in_sheet df sheet_name =
         [(if sheet_name \<noteq> [] then ''Sheet_'' @ sheet_name else ''Default_Table'', clean_table df)]"
  using assms by (intro no_marker_sheet) (simp add: markers_Nil_iff)

theorem no_marker_single_table_witness:
  "markers plain_sheet = []
   \<and> identify_tables_in_sheet plain_sheet ''Data'' =
       [(''Sheet_Data'', [(0, [Number ''1'' 1, Number ''2'' 2]), (1, [Number ''3'' 3, Text ''x''])])]
   \<and> identify_tables_in_sheet plain_sheet '''' =
       [(''Default_Table'', [(0, [Number ''1'' 1, Number ''2'' 2]), (1, [Number ''3'' 3, Text ''x''])])]
   \<and> markers blank_label_sheet = []
   \<and> identify_tables_in_sheet blank_label_sheet ''S'' =
       [(''Sheet_S'', [(0, [Text [CHR 0xA0], Number ''1'' 1]), (1, [Text [CHR 0x85, CHR 0x20], Empty])])]"
proof -
  have h: "markers plain_sheet = []" by code_simp
  have c: "clean_table plain_sheet = [(0, [Number ''1'' 1, Number ''2'' 2]), (1, [Number ''3'' 3, Text ''x''])]"
    by code_simp
  have r1: "identify_tables_in_sheet plain_sheet ''Data'' =
       [(''Sheet_Data'', [(0, [Number ''1'' 1, Number ''2'' 2]), (1, [Number ''3'' 3, Text ''x''])])]"
    using c no_marker_single_table [OF h, of "''Data''"] by simp
  have r2: "identify_tables_in_sheet plain_sheet '''' =
       [(''Default_Table'', [(0, [Number ''1'' 1, Number ''2'' 2]), (1, [Number ''3'' 3, Text ''x''])])]"
    using c no_marker_single_table [OF h, of "''''"] by simp
  have h3: "markers blank_label_sheet = []" by code_simp
  have c3: "clean_table blank_label_sheet =
       [(0, [Text [CHR 0xA0], Number ''1'' 1]), (1, [Text [CHR 0x85, CHR 0x20], Empty])]"
    by code_simp
  have r3: "identify_tables_in_sheet blank_label_sheet ''S'' =
       [(''Sheet_S'', [(0, [Text [CHR 0xA0], Number ''1'' 1]), (1, [Text [CHR 0x85, CHR 0x20], Empty])])]"
    using c3 no_marker_single_table [OF h3, of "''S''"] by simp
  from h r1 r2 h3 r3 show ?thesis by (intro conjI)
qed

section \<open>Properties of the store\<close>

text \<open>
  Claim C9. When a table name is derived more than once, within one sheet or across
  sheets, the store maps it to the table of the last occurrence, in row order within a
  sheet and in sheet order across sheets: whatever was stored under the name before
  (\<open>earlier\<close>) is overwritten.
\<close>

theorem last_write_wins:
  assumes "\<forall>(sheet_name, df)\<in>set excel_data. range_index df"
    and "all_writes excel_data = earlier @ (name, g) # later"
    and "name \<notin> fst ` set later"
  shows "map_of (process_tables excel_data) name = Some (clean_table g)"
  using assms by (rule store_last_write_wins)

theorem last_write_wins_witness:
  "list_all range_index (map snd example_workbook)
   \<and> all_writes example_workbook =
       [(''Revenue'', rows_between example_sheet 0 1), (''Costs'', rows_between example_sheet 1 3)]
       @ (''Revenue'', rows_between example_sheet 3 5) # [(''Costs'', second_sheet)]
   \<and> ''Revenue'' \<notin> fst ` set [(''Costs'', second_sheet)]
   \<and> map_of (process_tables example_workbook) ''Revenue'' =
       Some [(0, [Text '' Revenue '', Text ''1200.50%'']), (1, [Number ''7'' 7, Raw ''2020-01-01''])]
   \<and> all_writes example_workbook =
       [(''Revenue'', rows_between example_sheet 0 1), (''Costs'', rows_between example_sheet 1 3),
        (''Revenue'', rows_between example_sheet 3 5)] @ (''Costs'', second_sheet) # []
   \<and> map_of (process_tables example_workbook) ''Costs'' = Some [(0, [Text ''Costs'', Number ''1'' 1])]
   \<and> get_table_names (process_tables example_workbook) = [''Revenue'', ''Costs'']
   \<and> list_all range_index (map snd [(''S'', spaced_sheet)])
   \<and> all_writes [(''S'', spaced_sheet)] =
       [(''Total'', rows_between spaced_sheet 0 2)] @ (''Total'', rows_between spaced_sheet 2 3) # []
   \<and> map_of (process_tables [(''S'', spaced_sheet)]) ''Total'' =
       Some [(0, [Text (CHR 0x85 # ''Total''), Text (CHR 0xA0 # ''1200.50'')])]
   \<and> get_table_names (process_tables [(''S'', spaced_sheet)]) = [''Total'']"
proof -
  have h: "\<forall>(sheet_name, df)\<in>set example_workbook. range_index df" by code_simp
  have w1: "all_writes example_workbook =
       [(''Revenue'', rows_between example_sheet 0 1), (''Costs'', rows_between example_sheet 1 3)]
       @ (''Revenue'', rows_between example_sheet 3 5) # [(''Costs'', second_sheet)]"
    by code_simp
  have w2: "all_writes example_workbook =
       [(''Revenue'', rows_between example_sheet 0 1), (''Costs'', rows_between example_sheet 1 3),
        (''Revenue'', rows_between example_sheet 3 5)] @ (''Costs'', second_sheet) # []"
    by code_simp
  have n1: "''Revenue'' \<notin> fst ` set [(''Costs'', second_sheet)]" by simp
  have n2: "''Costs'' \<notin> fst ` set ([] :: (string \<times> rat dataframe) list)" by simp
  have c1: "clean_table (rows_between example_sheet 3 5) =
       [(0, [Text '' Revenue '', Text ''1200.50%'']), (1, [Number ''7'' 7, Raw ''2020-01-01''])]"
    by code_simp
  have c2: "clean_table second_sheet = [(0, [Text ''Costs'', Number ''1'' 1])]" by code_simp
  have k: "get_table_names (process_tables example_workbook) = [''Revenue'', ''Costs'']"
    by code_simp
  from last_write_wins [OF h w1 n1] c1
  have r1: "map_of (process_tables example_workbook) ''Revenue'' =
       Some [(0, [Text '' Revenue '', Text ''1200.50%'']), (1, [Number ''7'' 7, Raw ''2020-01-01''])]"
    by simp
  from last_write_wins [OF h w2 n2] c2
  have r2: "map_of (process_tables example_workbook) ''Costs'' = Some [(0, [Text ''Costs'', Number ''1'' 1])]"
    by simp
  have h': "list_all range_index (map snd example_workbook)" by code_simp
  have h3: "\<forall>(sheet_name, df)\<in>set [(''S'', spaced_sheet)]. range_index df" by code_simp
  have h3': "list_all range_index (map snd [(''S'', spaced_sheet)])" by code_simp
  have w3: "all_writes [(''S'', spaced_sheet)] =
       [(''Total'', rows_between spaced_sheet 0 2)] @ (''Total'', rows_between spaced_sheet 2 3) # []"
    by code_simp
  have n3: "''Total'' \<notin> fst ` set ([] :: (string \<times> rat dataframe) list)" by simp
  have c3: "clean_table (rows_between spaced_sheet 2 3) =
       [(0, [Text (CHR 0x85 # ''Total''), Text (CHR 0xA0 # ''1200.50'')])]"
    by code_simp
  have k3: "get_table_names (process_tables [(''S'', spaced_sheet)]) = [''Total'']" by code_simp
  from last_write_wins [OF h3 w3 n3] c3
  have r3: "map_of (process_tables [(''S'', spaced_sheet)]) ''Total'' =
       Some [(0, [Text (CHR 0x85 # ''Total''), Text (CHR 0xA0 # ''1200.50'')])]"
    by simp
  from h' w1 n1 r1 w2 r2 k h3' w3 r3 k3 show ?thesis by (intro conjI)
qed




section \<open>Properties of the queries\<close>

text \<open>
  Claim C1. For a table of the store, \<^verbatim>\<open>calculate_row_sum\<close> scans the rows in order and
  takes the first row whose first cell is non-empty and whose text (\<^verbatim>\<open>str\<close>, as for the
  row labels) equals \<open>row_name\<close>; without such a row the result is the row-not-found
  error. Otherwise the result is the sum, from 0 and from left to right, over the cells
  after the first: a number counts as it is, a text counts as the parse of what is left
  after deleting \<^verbatim>\<open>%\<close>, \<^verbatim>\<open>$\<close>, \<^verbatim>\<open>,\<close> and trimming, and a cell with nothing left, with
  a failing parse, or of another kind is skipped. A matched row without numeric cell
  gives 0.
\<close>

theorem sum_row_contract:
  assumes "map_of tables table_name = Some df"
  shows "calculate_row_sum float_str tables table_name row_name =
           (case find (label_matches row_name) (map snd df) of
              None \<Rightarrow> Inl (row_not_found row_name table_name)
            | Some row \<Rightarrow> Inr (foldl (+) 0 (List.map_filter (coerce float_str) (tl row))))
       \<and> (\<forall>row. find (label_matches row_name) (map snd df) = Some row
                \<and> (\<forall>c\<in>set (tl row). coerce float_str c = None)
              \<longrightarrow> calculate_row_sum float_str tables table_name row_name = Inr 0)"
  by (simp add: calculate_row_sum_spec [OF assms] map_filter_none)

theorem sum_row_contract_witness:
  "map_of example_tables ''Costs'' = Some example_table
   \<and> calculate_row_sum float_decimal example_tables ''Costs'' ''Costs'' = Inr (- 80)
   \<and> calculate_row_sum float_decimal example_tables ''Costs'' ''2024'' = Inr 1203
   \<and> find (label_matches ''2020-01-01'') (map snd example_table) =
       Some [Raw ''2020-01-01'', Text ''$'', Raw ''x'', Empty, Empty]
   \<and> map (coerce float_decimal) (tl [Raw ''2020-01-01'', Text ''$'', Raw ''x'', Empty, Empty]) =
       [None, None, None, None]
   \<and> calculate_row_sum float_decimal example_tables ''Costs'' ''2020-01-01'' = Inr 0
   \<and> calculate_row_sum float_decimal example_tables ''Costs'' ''Profit'' =
       Inl (row_not_found ''Profit'' ''Costs'')
   \<and> map_of spaced_tables ''T'' =
       Some [(0, [Text ''r'', Text (CHR 0xA0 # ''1200.50''), Text [CHR 0xA0], Text [CHR 0x85]])]
   \<and> map (coerce float_decimal) [Text (CHR 0xA0 # ''1200.50''), Text [CHR 0xA0], Text [CHR 0x85]] =
       [Some (2401 / 2), None, None]
   \<and> calculate_row_sum float_decimal spaced_tables ''T'' ''r'' = Inr (2401 / 2)"
proof -
  have h: "map_of example_tables ''Costs'' = Some example_table" by code_simp
  note t = sum_row_contract [OF h, of float_decimal]
  have e1: "(case find (label_matches ''Costs'') (map snd example_table) of
              None \<Rightarrow> Inl (row_not_found ''Costs'' ''Costs'')
            | Some row \<Rightarrow> Inr (foldl (+) 0 (List.map_filter (coerce float_decimal) (tl row))))
          = Inr (- 80)"
    by code_simp
  have e2: "(case find (label_matches ''2024'') (map snd example_table) of
              None \<Rightarrow> Inl (row_not_found ''2024'' ''Costs'')
            | Some row \<Rightarrow> Inr (foldl (+) 0 (List.map_filter (coerce float_decimal) (tl row))))
          = Inr 1203"
    by code_simp
  have e4: "(case find (label_matches ''Profit'') (map snd example_table) of
              None \<Rightarrow> Inl (row_not_found ''Profit'' ''Costs'')
            | Some row \<Rightarrow> Inr (foldl (+) 0 (List.map_filter (coerce float_decimal) (tl row))))
          = Inl (row_not_found ''Profit'' ''Costs'')"
    by code_simp
  have f3: "find (label_matches ''2020-01-01'') (map snd example_table) =
       Some [Raw ''2020-01-01'', Text ''$'', Raw ''x'', Empty, Empty]"
    by code_simp
  have n3: "\<forall>c\<in>set (tl [Raw ''2020-01-01'', Text ''$'', Raw ''x'', Empty, Empty]).
         coerce float_decimal c = None"
    by code_simp
  have r1: "calculate_row_sum float_decimal example_tables ''Costs'' ''Costs'' = Inr (- 80)"
    using t [of "''Costs''", THEN conjunct1] by (simp only: e1)
  have r2: "calculate_row_sum float_decimal example_tables ''Costs'' ''2024'' = Inr 1203"
    using t [of "''2024''", THEN conjunct1] by (simp only: e2)
  have r3: "calculate_row_sum float_decimal example_tables ''Costs'' ''2020-01-01'' = Inr 0"
    using t [of "''2020-01-01''", THEN conjunct2] f3 n3 by blast
  have r4: "calculate_row_sum float_decimal example_tables ''Costs'' ''Profit'' =
       Inl (row_not_found ''Profit'' ''Costs'')"
    using t [of "''Profit''", THEN conjunct1] by (simp only: e4)
  have m3: "map (coerce float_decimal) (tl [Raw ''2020-01-01'', Text ''$'', Raw ''x'', Empty, Empty]) =
       [None, None, None, None]"
    by code_simp
  have h5: "map_of spaced_tables ''T'' =
       Some [(0, [Text ''r'', Text (CHR 0xA0 # ''1200.50''), Text [CHR 0xA0], Text [CHR 0x85]])]"
    by code_simp
  have m5: "map (coerce float_decimal) [Text (CHR 0xA0 # ''1200.50''), Text [CHR 0xA0], Text [CHR 0x85]] =
       [Some (2401 / 2), None, None]"
    by code_simp
  have e5: "(case find (label_matches ''r'')
                (map snd [(0 :: nat, [Text ''r'', Text (CHR 0xA0 # ''1200.50''), Text [CHR 0xA0],
                                     Text [CHR 0x85]])]) of
              None \<Rightarrow> Inl (row_not_found ''r'' ''T'')
            | Some row \<Rightarrow> Inr (foldl (+) 0 (List.map_filter (coerce float_decimal) (tl row))))
          = Inr (2401 / 2)"
    by code_simp
  have r5: "calculate_row_sum float_decimal spaced_tables ''T'' ''r'' = Inr (2401 / 2)"
    using sum_row_contract [OF h5, of float_decimal "''r''", THEN conjunct1] by (simp only: e5)
  from h r1 r2 f3 m3 r3 r4 h5 m5 r5 show ?thesis by (intro conjI)
qed

text \<open>
  Claim C6. What a text cell adds to the sum of its row does not change when whitespace is
  put around it or when characters \<^verbatim>\<open>%\<close>, \<^verbatim>\<open>$\<close>, \<^verbatim>\<open>,\<close> are put anywhere in it: if \<open>s'\<close>
  without these characters is \<open>s\<close> without them, between whitespace, then the table with
  \<open>s'\<close> in place of \<open>s\<close> has the same row sums (and the same not-found results). So the
  cells \<^verbatim>\<open>" 1,200.50 "\<close>, \<^verbatim>\<open>"1200.50"\<close> and \<^verbatim>\<open>"1200.50%"\<close> all add 1200.50: the sign
  \<^verbatim>\<open>%\<close> is deleted, nothing is scaled.
\<close>

theorem sum_row_decoration_invariant:
  assumes "\<forall>c\<in>set ws1. isspace c" and "\<forall>c\<in>set ws2. isspace c"
    and "remove_symbols s' = ws1 @ remove_symbols s @ ws2"
    and "map_of tables table_name =
           Some (rows_above @ (idx, label # before @ Text s # after) # rows_below)"
    and "map_of tables' table_name =
           Some (rows_above @ (idx, label # before @ Text s' # after) # rows_below)"
  shows "calculate_row_sum float_str tables' table_name row_name =
         calculate_row_sum float_str tables table_name row_name"
  using assms by (rule row_sum_decorated)

theorem sum_row_decoration_invariant_witness:
  "list_all isspace '' ''
   \<and> remove_symbols '' 1,200.50 '' = '' '' @ remove_symbols ''1200.50'' @ '' ''
   \<and> remove_symbols ''1200.50%'' = [] @ remove_symbols ''1200.50'' @ []
   \<and> calculate_row_sum float_decimal
        [(''T'', [] @ (0, Text ''r'' # [] @ Text ''1200.50'' # []) # [])] ''T'' ''r'' = Inr (2401 / 2)
   \<and> calculate_row_sum float_decimal
        [(''T'', [] @ (0, Text ''r'' # [] @ Text '' 1,200.50 '' # []) # [])] ''T'' ''r'' = Inr (2401 / 2)
   \<and> calculate_row_sum float_decimal
        [(''T'', [] @ (0, Text ''r'' # [] @ Text ''1200.50%'' # []) # [])] ''T'' ''r'' = Inr (2401 / 2)
   \<and> list_all isspace [CHR 0xA0] \<and> list_all isspace [CHR 0x85]
   \<and> remove_symbols (CHR 0xA0 # ''1200.50'' @ [CHR 0x85]) =
       [CHR 0xA0] @ remove_symbols ''1200.50'' @ [CHR 0x85]
   \<and> calculate_row_sum float_decimal
        [(''T'', [] @ (0, Text ''r'' # [] @ Text (CHR 0xA0 # ''1200.50'' @ [CHR 0x85]) # []) # [])]
        ''T'' ''r'' = Inr (2401 / 2)"
proof -
  have sp: "\<forall>c\<in>set '' ''. isspace c" by code_simp
  have no: "\<forall>c\<in>set ''''. isspace c" by simp
  have a: "remove_symbols '' 1,200.50 '' = '' '' @ remove_symbols ''1200.50'' @ '' ''"
    by code_simp
  have b: "remove_symbols ''1200.50%'' = [] @ remove_symbols ''1200.50'' @ []"
    by code_simp
  have t0: "map_of [(''T'', [] @ (0 :: nat, Text ''r'' # [] @ Text ''1200.50'' # []) # [])] ''T'' =
            Some ([] @ (0, Text ''r'' # [] @ (Text ''1200.50'' :: rat cell) # []) # [])"
    by simp
  have t1: "map_of [(''T'', [] @ (0 :: nat, Text ''r'' # [] @ Text '' 1,200.50 '' # []) # [])] ''T'' =
            Some ([] @ (0, Text ''r'' # [] @ (Text '' 1,200.50 '' :: rat cell) # []) # [])"
    by simp
  have t2: "map_of [(''T'', [] @ (0 :: nat, Text ''r'' # [] @ Text ''1200.50%'' # []) # [])] ''T'' =
            Some ([] @ (0, Text ''r'' # [] @ (Text ''1200.50%'' :: rat cell) # []) # [])"
    by simp
  have r0: "calculate_row_sum float_decimal
        [(''T'', [] @ (0, Text ''r'' # [] @ Text ''1200.50'' # []) # [])] ''T'' ''r'' = Inr (2401 / 2)"
    by code_simp
  have r1: "calculate_row_sum float_decimal
        [(''T'', [] @ (0, Text ''r'' # [] @ Text '' 1,200.50 '' # []) # [])] ''T'' ''r'' = Inr (2401 / 2)"
    using sum_row_decoration_invariant [OF sp sp a t0 t1, of float_decimal "''r''"] r0
    by (simp only:)
  have r2: "calculate_row_sum float_decimal
        [(''T'', [] @ (0, Text ''r'' # [] @ Text ''1200.50%'' # []) # [])] ''T'' ''r'' = Inr (2401 / 2)"
    using sum_row_decoration_invariant [OF no no b t0 t2, of float_decimal "''r''"] r0
    by (simp only:)
  have sp': "list_all isspace '' ''" by code_simp
  have nb: "\<forall>c\<in>set [CHR 0xA0]. isspace c" by code_simp
  have nl: "\<forall>c\<in>set [CHR 0x85]. isspace c" by code_simp
  have nb': "list_all isspace [CHR 0xA0]" by code_simp
  have nl': "list_all isspace [CHR 0x85]" by code_simp
  have a3: "remove_symbols (CHR 0xA0 # ''1200.50'' @ [CHR 0x85]) =
       [CHR 0xA0] @ remove_symbols ''1200.50'' @ [CHR 0x85]"
    by code_simp
  have t3: "map_of [(''T'', [] @ (0 :: nat, Text ''r'' # [] @ Text (CHR 0xA0 # ''1200.50'' @ [CHR 0x85]) # []) # [])]
              ''T'' =
            Some ([] @ (0, Text ''r'' # [] @ (Text (CHR 0xA0 # ''1200.50'' @ [CHR 0x85]) :: rat cell) # []) # [])"
    by simp
  have r3: "calculate_row_sum float_decimal
        [(''T'', [] @ (0, Text ''r'' # [] @ Text (CHR 0xA0 # ''1200.50'' @ [CHR 0x85]) # []) # [])]
        ''T'' ''r'' = Inr (2401 / 2)"
    using sum_row_decoration_invariant [OF nb nl a3 t0 t3, of float_decimal "''r''"] r0
    by (simp only:)
  from sp' a b r0 r1 r2 nb' nl' a3 r3 show ?thesis by (intro conjI)
qed

text \<open>
  Claim C7. For a table name that is not in the store, \<^verbatim>\<open>get_table_row_names\<close> and
  \<^verbatim>\<open>calculate_row_sum\<close> both raise the table-not-found error, whatever the row name: no
  row is looked at. For a table of the store in which no row answers to \<open>row_name\<close>,
  \<^verbatim>\<open>calculate_row_sum\<close> raises the row-not-found error, which differs from every
  table-not-found error; both carry the status 404, not the 500 of a server failure. The
  queries are functions of the store and return no store: they leave it as it is.
\<close>

theorem not_found_contract:
  "(map_of tables table_name = None \<longrightarrow>
      get_table_row_names tables table_name = Inl (table_not_found table_name) \<and>
      calculate_row_sum float_str tables table_name row_name = Inl (table_not_found table_name))
   \<and> (map_of tables table_name = Some df \<and> (\<forall>row\<in>snd ` set df. \<not> label_matches row_name row) \<longrightarrow>
      calculate_row_sum float_str tables table_name row_name = Inl (row_not_found row_name table_name))
   \<and> row_not_found row_name table_name \<noteq> table_not_found other
   \<and> status_code (row_not_found row_name table_name) = 404
   \<and> status_code (table_not_found table_name) = 404"
  by (rule not_found_results)

theorem not_found_contract_witness:
  "map_of example_tables ''Revenue'' = None
   \<and> get_table_row_names example_tables ''Revenue'' = Inl (table_not_found ''Revenue'')
   \<and> calculate_row_sum float_decimal example_tables ''Revenue'' ''Costs'' = Inl (table_not_found ''Revenue'')
   \<and> map_of example_tables ''Costs'' = Some example_table
   \<and> filter (label_matches ''Profit'') (map snd example_table) = []
   \<and> calculate_row_sum float_decimal example_tables ''Costs'' ''Profit'' =
       Inl (row_not_found ''Profit'' ''Costs'')
   \<and> row_not_found ''Profit'' ''Costs'' \<noteq> table_not_found ''Costs''"
proof -
  have a: "map_of example_tables ''Revenue'' = None" by code_simp
  have p: "map_of example_tables ''Costs'' = Some example_table" by code_simp
  have q: "\<forall>row\<in>snd ` set example_table. \<not> label_matches ''Profit'' row" by code_simp
  note t1 = not_found_contract [of example_tables "''Revenue''" float_decimal "''Costs''" example_table "''Costs''"]
  note t2 = not_found_contract [of example_tables "''Costs''" float_decimal "''Profit''" example_table "''Costs''"]
  from t1 a have r1: "get_table_row_names example_tables ''Revenue'' = Inl (table_not_found ''Revenue'')"
    and r2: "calculate_row_sum float_decimal example_tables ''Revenue'' ''Costs'' = Inl (table_not_found ''Revenue'')"
    by blast+
  from t2 p q have r3: "calculate_row_sum float_decimal example_tables ''Costs'' ''Profit'' =
       Inl (row_not_found ''Profit'' ''Costs'')"
    and r4: "row_not_found ''Profit'' ''Costs'' \<noteq> table_not_found ''Costs''"
    by blast+
  have q': "filter (label_matches ''Profit'') (map snd example_table) = []" by code_simp
  from a r1 r2 p q' r3 r4 show ?thesis by (intro conjI)
qed

text \<open>
  Claim C10. Every name that \<^verbatim>\<open>get_table_row_names\<close> returns for a table is found by
  \<^verbatim>\<open>calculate_row_sum\<close> in that table: the result is a sum, never the row-not-found
  error. Both take the text of the first cell by \<^verbatim>\<open>str\<close>.
\<close>

theorem listed_label_never_row_not_found:
  assumes "get_table_row_names tables table_name = Inr names"
    and "name \<in> set names"
  shows "calculate_row_sum float_str tables table_name name \<noteq> Inl (row_not_found name table_name)
       \<and> (\<exists>v. calculate_row_sum float_str tables table_name name = Inr v)"
  using assms by (rule listed_label_has_sum)

theorem listed_label_never_row_not_found_witness:
  "get_table_row_names example_tables ''Costs'' = Inr [''Costs'', ''2024'', ''2020-01-01'']
   \<and> ''2024'' \<in> set [''Costs'', ''2024'', ''2020-01-01'']
   \<and> calculate_row_sum float_decimal example_tables ''Costs'' ''2024'' \<noteq>
       Inl (row_not_found ''2024'' ''Costs'')
   \<and> (\<exists>v. calculate_row_sum float_decimal example_tables ''Costs'' ''2024'' = Inr v)"
proof -
  have g: "get_table_row_names example_tables ''Costs'' = Inr [''Costs'', ''2024'', ''2020-01-01'']"
    by code_simp
  have m: "''2024'' \<in> set [''Costs'', ''2024'', ''2020-01-01'']" by simp
  from g m listed_label_never_row_not_found [OF g m, of float_decimal]
  show ?thesis by (intro conjI) blast+
qed

end
